theory Spec2Isabelle
  imports Main
begin

section \<open>Task store (services/gateway-go/src/store/store.go)\<close>

text \<open>
  The Go struct \<open>Task\<close>. \<open>Progress\<close> is a Go \<open>int\<close>; the worker only ever stores the
  constants 5, 10, 40, 50, ..., 100 in it, so no arithmetic can overflow and an unbounded
  integer is exact.
\<close>

record Task =
  ID :: string
  Status :: string
  Progress :: int
  SourcePath :: string
  AnnotatedPath :: string
  ReportPath :: string

text \<open>
  \<open>Store.tasks\<close> is a \<open>map[string]*Task\<close> behind a mutex. The model is sequential (one
  operation holds the lock at a time), so the store is a partial map from ids to task
  values; a mutation through the stored pointer is an update of the entry.
\<close>

type_synonym Store = "string \<rightharpoonup> Task"

definition NewStore :: Store where
  "NewStore = Map.empty"

text \<open>\<open>AddTask\<close> has no result in the source: \<open>s.tasks[t.ID] = t\<close>.\<close>

definition AddTask :: "Task \<Rightarrow> Store \<Rightarrow> Store" where
  "AddTask t s = s(ID t \<mapsto> t)"

text \<open>\<open>GetTask\<close> returns \<open>(t, ok)\<close>; \<open>None\<close> is \<open>ok = false\<close>.\<close>

definition GetTask :: "Store \<Rightarrow> string \<Rightarrow> Task option" where
  "GetTask s tid = s tid"

text \<open>\<open>UpdateTask\<close> applies the mutation if the task exists and reports whether it did.\<close>

definition UpdateTask :: "string \<Rightarrow> (Task \<Rightarrow> Task) \<Rightarrow> Store \<Rightarrow> Store \<times> bool" where
  "UpdateTask tid fn s =
     (case s tid of
        None \<Rightarrow> (s, False)
      | Some t \<Rightarrow> (s(tid \<mapsto> fn t), True))"

section \<open>Messages of the audit services\<close>

text \<open>
  Modelled from the spec: the protobuf declarations of \<open>Issue\<close> and \<open>AuditResponse\<close>
  (shared/protos/auditor.proto and its generated Go package) are not part of the sources.
  The spec gives an issue a section id, a stable code, a message and a severity with
  INFO < MEDIUM < CRITICAL. The worker reads nothing of a response but its issue list.
\<close>

datatype Severity = INFO | MEDIUM | CRITICAL

record Issue =
  section_id :: int
  code :: string
  message :: string
  severity :: Severity

record AuditResponse =
  Issues :: "Issue list"

text \<open>The zero value \<open>&auditorpb.AuditResponse{}\<close>: no issues.\<close>

definition empty_response :: AuditResponse where
  "empty_response = \<lparr>Issues = []\<rparr>"


section \<open>The environment of the worker\<close>

text \<open>
  What the outside world answers while one task is processed by the gRPC worker: whether
  each \<open>grpc.DialContext\<close> connected before its deadline, whether \<open>ParseDocument\<close>
  returned without error, the response or error (\<open>None\<close>) of the two audit calls, and
  whether \<open>copyFile\<close> and \<open>WriteReport\<close> returned \<open>nil\<close>. A deadline that expires is an
  error of the call, as in gRPC.
\<close>

record Outcome =
  parser_dial :: bool
  parse_ok :: bool
  engine_dial :: bool
  inference_dial :: bool
  audit_rules :: "AuditResponse option"
  analyze_semantics :: "AuditResponse option"
  copy_ok :: bool
  report_ok :: bool

text \<open>The calls that leave the process, in the order the worker makes them.\<close>

datatype Call =
    DialParser
  | ParseDocument string
  | DialEngine
  | DialInference
  | AuditRules
  | AnalyzeSemantics
  | CopyFile string string
  | WriteReport string string "Issue list"

text \<open>
  The state the worker acts on: the store, the log of outside calls, and the store as it
  was after each successful \<open>UpdateTask\<close> (what a polling client can observe).
\<close>

record World =
  store :: Store
  calls :: "Call list"
  trace :: "Store list"

definition call :: "Call \<Rightarrow> World \<Rightarrow> World" where
  "call c w = w\<lparr>calls := calls w @ [c]\<rparr>"

definition update :: "string \<Rightarrow> (Task \<Rightarrow> Task) \<Rightarrow> World \<Rightarrow> World" where
  "update tid fn w =
     (case UpdateTask tid fn (store w) of
        (s', True) \<Rightarrow> w\<lparr>store := s', trace := trace w @ [s']\<rparr>
      | (s', False) \<Rightarrow> w)"

section \<open>The gRPC worker (services/gateway-go/worker_grpc.go, package worker)\<close>

text \<open>
  Each goroutine of the fan-out sends exactly one response: the service's on success, the
  empty response on error.
\<close>

definition audit_branch :: "Outcome \<Rightarrow> AuditResponse" where
  "audit_branch out =
     (case audit_rules out of None \<Rightarrow> empty_response | Some resp \<Rightarrow> resp)"

definition semantic_branch :: "Outcome \<Rightarrow> AuditResponse" where
  "semantic_branch out =
     (case analyze_semantics out of None \<Rightarrow> empty_response | Some resp \<Rightarrow> resp)"

text \<open>\<open>issues := append(auditResp.Issues, semResp.Issues...)\<close>\<close>

definition aggregate :: "AuditResponse \<Rightarrow> AuditResponse \<Rightarrow> Issue list" where
  "aggregate auditResp semResp = Issues auditResp @ Issues semResp"

text \<open>
  From the join of the two branches to the end of the loop body. The results of
  \<open>copyFile\<close> and \<open>WriteReport\<close> are discarded (\<open>_ =\<close>), so \<open>copy_ok\<close> and \<open>report_ok\<close>
  are never consulted.
\<close>

definition finish :: "Outcome \<Rightarrow> string \<Rightarrow> Task \<Rightarrow> World \<Rightarrow> World" where
  "finish out tid t w =
     (let auditResp = audit_branch out;
          semResp = semantic_branch out;
          issues = aggregate auditResp semResp;
          annotated = SourcePath t @ ''-annotated.docx'';
          report = SourcePath t @ ''-report.json'';
          w1 = call (CopyFile (SourcePath t) annotated) w;
          w2 = call (WriteReport report tid issues) w1
      in update tid (\<lambda>t. t\<lparr>AnnotatedPath := annotated, ReportPath := report,
                              Status := ''Completed'', Progress := 100\<rparr>) w2)"

text \<open>
  The audit stage: both connections are dialled before either call is made, and a failed
  dial ends the task. The two calls run in parallel in the source; the log lists the
  rule engine's first, the order in which the worker reads the two channels.
\<close>

definition audit_stage :: "Outcome \<Rightarrow> string \<Rightarrow> Task \<Rightarrow> World \<Rightarrow> World" where
  "audit_stage out tid t w =
     (let w1 = update tid (\<lambda>t. t\<lparr>Status := ''Auditing'', Progress := 40\<rparr>) w;
          w2 = call DialEngine w1
      in if \<not> engine_dial out then
           update tid (\<lambda>t. t\<lparr>Status := ''Error: engine connect''\<rparr>) w2
         else
           let w3 = call DialInference w2
           in if \<not> inference_dial out then
                update tid (\<lambda>t. t\<lparr>Status := ''Error: inference connect''\<rparr>) w3
              else finish out tid t (call AnalyzeSemantics (call AuditRules w3)))"

text \<open>
  One iteration of \<open>for id := range tasks\<close>. \<open>t\<close> is the task \<open>GetTask\<close> returned; the
  worker reads only its \<open>SourcePath\<close>, which no mutation changes. The variant of this
  worker in package main takes the same steps, writing to the task under the store's
  lock instead of calling \<open>UpdateTask\<close>.
\<close>

definition process_task :: "Outcome \<Rightarrow> string \<Rightarrow> World \<Rightarrow> World" where
  "process_task out tid w =
     (case GetTask (store w) tid of
        None \<Rightarrow> w
      | Some t \<Rightarrow>
          let w1 = update tid (\<lambda>t. t\<lparr>Status := ''Parsing'', Progress := 5\<rparr>) w;
              w2 = call DialParser w1
          in if \<not> parser_dial out then
               update tid (\<lambda>t. t\<lparr>Status := ''Error: parser connect''\<rparr>) w2
             else
               let w3 = call (ParseDocument (SourcePath t)) w2
               in if \<not> parse_ok out then
                    update tid (\<lambda>t. t\<lparr>Status := ''Error: parse''\<rparr>) w3
                  else audit_stage out tid t w3)"

text \<open>
  The loop over the channel: the ids the worker receives, each with what the environment
  answers while it is processed. The channel is never closed, so every run of the source
  is a prefix of this recursion.
\<close>

fun Worker :: "(string \<times> Outcome) list \<Rightarrow> World \<Rightarrow> World" where
  "Worker [] w = w"
| "Worker ((tid, out) # tasks) w = Worker tasks (process_task out tid w)"

section \<open>The simulated worker (package main, next to \<open>NewStore\<close>)\<close>

text \<open>
  \<open>for p := 50; p <= 90; p += 10 { t.Progress = p }\<close>, each assignment under the lock.
\<close>

function progress_loop :: "int \<Rightarrow> string \<Rightarrow> World \<Rightarrow> World" where
  "progress_loop p tid w =
     (if p \<le> 90 then progress_loop (p + 10) tid (update tid (\<lambda>t. t\<lparr>Progress := p\<rparr>) w)
      else w)"
  by pat_completeness auto
termination
  by (relation "measure (\<lambda>(p, tid, w). nat (100 - p))") auto

text \<open>
  \<open>filepath.Join("..", "temp_docs", name)\<close> for a name without path separators, which
  the ids of the intake (UUIDs) are.
\<close>

definition temp_docs :: "string \<Rightarrow> string" where
  "temp_docs name = ''../temp_docs/'' @ name"

text \<open>
  One iteration of the simulated loop. The report it writes has an empty issue list; its
  status and timestamp fields are not part of the log. The variant in package worker
  differs in how it finds out that the id has no record (its first \<open>UpdateTask\<close> returns
  false) and takes the same steps otherwise.
\<close>

definition simulate_task :: "string \<Rightarrow> World \<Rightarrow> World" where
  "simulate_task tid w =
     (case store w tid of
        None \<Rightarrow> w
      | Some t \<Rightarrow>
          let w1 = update tid (\<lambda>t. t\<lparr>Status := ''Parsing'', Progress := 10\<rparr>) w;
              w2 = update tid (\<lambda>t. t\<lparr>Status := ''Auditing'', Progress := 40\<rparr>) w1;
              w3 = progress_loop 50 tid w2;
              annotated = temp_docs (tid @ ''-annotated.docx'');
              report = temp_docs (tid @ ''-report.json'');
              w4 = call (CopyFile (SourcePath t) annotated) w3;
              w5 = call (WriteReport report tid []) w4
          in update tid (\<lambda>t. t\<lparr>AnnotatedPath := annotated, ReportPath := report,
                                  Status := ''Completed'', Progress := 100\<rparr>) w5)"

fun SimWorker :: "string list \<Rightarrow> World \<Rightarrow> World" where
  "SimWorker [] w = w"
| "SimWorker (tid # tasks) w = SimWorker tasks (simulate_task tid w)"

section \<open>Intake (package handlers, \<open>UploadHandler\<close>)\<close>

text \<open>
  What one upload request meets: whether the form has a file, whether it opens, the id
  \<open>uuid.New().String()\<close> returns, whether the destination file is created and whether
  the copy into it succeeds.
\<close>

record Request =
  form_file :: bool
  file_open :: bool
  new_uuid :: string
  dst_create :: bool
  dst_copy :: bool

text \<open>
  The handler either writes a JSON response with a status code or returns an error to
  the framework.
\<close>

datatype Response = JSON nat "(string \<times> string) list" | HandlerError

text \<open>
  The gateway as \<open>main\<close> wires it: the store and the channel \<open>tasks\<close>. Of the channel
  the model keeps the buffered ids (oldest first), the capacity (100 in \<open>main\<close>, 1 in
  the handler's test), whether the worker is blocked receiving from it (which it can only
  be while the buffer is empty), the ids handed directly to a waiting worker, and the ids
  held by goroutines blocked in \<open>tasks <- id\<close>.
\<close>

record Gateway =
  task_store :: Store
  queue :: "string list"
  capacity :: nat
  receiver_waiting :: bool
  handed_over :: "string list"
  retrying :: "string list"

text \<open>
  \<open>select { case tasks <- id: default: ... }\<close>. The send goes through when a receiver is
  waiting, which takes the id directly, or when the buffer has room; otherwise the
  \<open>default\<close> branch marks the task Queued and starts a goroutine that sends the id when
  it can.
\<close>

definition enqueue :: "string \<Rightarrow> Gateway \<Rightarrow> Gateway" where
  "enqueue tid g =
     (if receiver_waiting g then
        g\<lparr>receiver_waiting := False, handed_over := handed_over g @ [tid]\<rparr>
      else if length (queue g) < capacity g then g\<lparr>queue := queue g @ [tid]\<rparr>
      else g\<lparr>task_store := fst (UpdateTask tid (\<lambda>t. t\<lparr>Status := ''Queued''\<rparr>) (task_store g)),
              retrying := retrying g @ [tid]\<rparr>)"

text \<open>
  \<open>&store.Task{ID: id, Status: "Pending", Progress: 0, SourcePath: dstPath}\<close>: the
  fields not named are Go's zero values, the empty string.
\<close>

definition pending_task :: "string \<Rightarrow> string \<Rightarrow> Task" where
  "pending_task tid dstPath =
     \<lparr>ID = tid, Status = ''Pending'', Progress = 0, SourcePath = dstPath,
      AnnotatedPath = [], ReportPath = []\<rparr>"

definition UploadHandler :: "Request \<Rightarrow> Gateway \<Rightarrow> Gateway \<times> Response" where
  "UploadHandler req g =
     (if \<not> form_file req then (g, JSON 400 [(''error'', ''file required'')])
      else if \<not> file_open req then (g, HandlerError)
      else
        let tid = new_uuid req;
            dstPath = temp_docs (tid @ ''.docx'')
        in if \<not> dst_create req then (g, HandlerError)
           else if \<not> dst_copy req then (g, HandlerError)
           else
             let g1 = g\<lparr>task_store := AddTask (pending_task tid dstPath) (task_store g)\<rparr>
             in (enqueue tid g1, JSON 202 [(''task_id'', tid)]))"

section \<open>Reading the logs\<close>

text \<open>What a step added to the call log and to the trace of the store.\<close>

definition new_calls :: "World \<Rightarrow> World \<Rightarrow> Call list" where
  "new_calls w w' = drop (length (calls w)) (calls w')"

definition new_trace :: "World \<Rightarrow> World \<Rightarrow> Store list" where
  "new_trace w w' = drop (length (trace w)) (trace w')"

text \<open>
  The successive records of one task while a step ran: the record before the step, then
  the record after each mutation.
\<close>

definition task_history :: "string \<Rightarrow> World \<Rightarrow> World \<Rightarrow> Task list" where
  "task_history tid w w' = List.map_filter (\<lambda>s. s tid) (store w # new_trace w w')"



text \<open>The calls that reach the inference service over the network.\<close>

fun inference_call :: "Call \<Rightarrow> bool" where
  "inference_call DialInference = True"
| "inference_call AnalyzeSemantics = True"
| "inference_call _ = False"

text \<open>The terminal states of a task, by its status string.\<close>

definition parse_error_status :: "string \<Rightarrow> bool" where
  "parse_error_status st = (st = ''Error: parser connect'' \<or> st = ''Error: parse'')"

text \<open>Consecutive pairs of a list.\<close>

definition steps :: "'a list \<Rightarrow> ('a \<times> 'a) list" where
  "steps xs = zip xs (tl xs)"

section \<open>The circuit breaker of the spec\<close>

text \<open>
  The sources hold no circuit breaker. To compare the worker with the spec's, this is the
  breaker as the spec words it (section 4.3), not a translation of code. \<open>Closed k\<close> has
  counted \<open>k\<close> consecutive failures; calls pass, and the \<open>n\<close>-th consecutive failure
  opens the breaker. \<open>Open\<close> short-circuits a call until the cool-down window has elapsed;
  then the breaker is \<open>HalfOpen\<close> and lets one probe through, which closes it on success
  and opens it again on failure. The result says whether the call went out on the
  network.
\<close>

datatype Breaker = Closed nat | Open | HalfOpen

definition spec_probe :: "bool \<Rightarrow> Breaker \<times> bool" where
  "spec_probe ok = (if ok then (Closed 0, True) else (Open, True))"

fun spec_breaker_call :: "nat \<Rightarrow> bool \<Rightarrow> bool \<Rightarrow> Breaker \<Rightarrow> Breaker \<times> bool" where
  "spec_breaker_call n cooled ok (Closed k) =
     (if ok then (Closed 0, True)
      else if n \<le> Suc k then (Open, True)
      else (Closed (Suc k), True))"
| "spec_breaker_call n cooled ok Open =
     (if cooled then spec_probe ok else (Open, False))"
| "spec_breaker_call n cooled ok HalfOpen = spec_probe ok"

text \<open>
  The calls the spec's breaker lets out, for a sequence of calls given by whether the
  cool-down has elapsed when each arrives and whether the service would answer it.
\<close>

fun spec_breaker_passes :: "nat \<Rightarrow> Breaker \<Rightarrow> (bool \<times> bool) list \<Rightarrow> bool list" where
  "spec_breaker_passes n b [] = []"
| "spec_breaker_passes n b ((cooled, ok) # cs) =
     (case spec_breaker_call n cooled ok b of
        (b', passed) \<Rightarrow> passed # spec_breaker_passes n b' cs)"

text \<open>
  The same for the worker: for each task it processes, whether \<open>AnalyzeSemantics\<close> went
  out on the network.
\<close>

fun semantic_calls :: "(string \<times> Outcome) list \<Rightarrow> World \<Rightarrow> bool list" where
  "semantic_calls [] w = []"
| "semantic_calls ((tid, out) # tasks) w =
     (AnalyzeSemantics \<in> set (new_calls w (process_task out tid w)))
       # semantic_calls tasks (process_task out tid w)"

section \<open>Scenarios\<close>

text \<open>
  A world right after the uploads of the given ids: the store holds the pending task the
  intake created for each, nothing has been called and nothing mutated yet.
\<close>

definition uploaded :: "string list \<Rightarrow> World" where
  "uploaded tids =
     \<lparr>store = fold (\<lambda>tid. AddTask (pending_task tid (temp_docs (tid @ ''.docx'')))) tids NewStore,
      calls = [], trace = []\<rparr>"

text \<open>An environment in which every service answers and finds nothing.\<close>

definition healthy :: Outcome where
  "healthy =
     \<lparr>parser_dial = True, parse_ok = True, engine_dial = True, inference_dial = True,
      audit_rules = Some empty_response, analyze_semantics = Some empty_response,
      copy_ok = True, report_ok = True\<rparr>"




text \<open>Scenario C of the spec: the parser cannot be reached.\<close>

definition scenario_C :: Outcome where
  "scenario_C = healthy\<lparr>parser_dial := False\<rparr>"

text \<open>The inference service accepts the connection and fails every call.\<close>

definition inference_failing :: Outcome where
  "inference_failing = healthy\<lparr>analyze_semantics := None\<rparr>"

section \<open>Basic facts about the store and the logs\<close>

lemma update_present:
  "store w tid = Some t \<Longrightarrow>
     update tid fn w =
       w\<lparr>store := (store w)(tid \<mapsto> fn t), trace := trace w @ [(store w)(tid \<mapsto> fn t)]\<rparr>"
  by (simp add: update_def UpdateTask_def)

lemma update_absent: "store w tid = None \<Longrightarrow> update tid fn w = w"
  by (simp add: update_def UpdateTask_def)

text \<open>
  What one iteration of the gRPC worker leaves behind for a task that has a record: the
  record in the store, the outside calls made, and the successive records of the task.
\<close>

lemmas worker_defs = process_task_def audit_stage_def finish_def call_def GetTask_def Let_def

lemma process_task_store:
  assumes "store w tid = Some t"
  shows "store (process_task out tid w) tid = Some
     (if \<not> parser_dial out then t\<lparr>Status := ''Error: parser connect'', Progress := 5\<rparr>
      else if \<not> parse_ok out then t\<lparr>Status := ''Error: parse'', Progress := 5\<rparr>
      else if \<not> engine_dial out then t\<lparr>Status := ''Error: engine connect'', Progress := 40\<rparr>
      else if \<not> inference_dial out then t\<lparr>Status := ''Error: inference connect'', Progress := 40\<rparr>
      else t\<lparr>AnnotatedPath := SourcePath t @ ''-annotated.docx'',
              ReportPath := SourcePath t @ ''-report.json'',
              Status := ''Completed'', Progress := 100\<rparr>)"
  using assms by (simp add: worker_defs update_present)

lemma process_task_calls:
  assumes "store w tid = Some t"
  shows "new_calls w (process_task out tid w) =
     DialParser #
     (if \<not> parser_dial out then []
      else ParseDocument (SourcePath t) #
        (if \<not> parse_ok out then []
         else DialEngine #
           (if \<not> engine_dial out then []
            else DialInference #
              (if \<not> inference_dial out then []
               else [AuditRules, AnalyzeSemantics,
                     CopyFile (SourcePath t) (SourcePath t @ ''-annotated.docx''),
                     WriteReport (SourcePath t @ ''-report.json'') tid
                       (aggregate (audit_branch out) (semantic_branch out))]))))"
  using assms by (simp add: worker_defs update_present new_calls_def)

lemma process_task_history:
  assumes "store w tid = Some t"
  shows "task_history tid w (process_task out tid w) =
     t # t\<lparr>Status := ''Parsing'', Progress := 5\<rparr> #
     (if \<not> parser_dial out then [t\<lparr>Status := ''Error: parser connect'', Progress := 5\<rparr>]
      else if \<not> parse_ok out then [t\<lparr>Status := ''Error: parse'', Progress := 5\<rparr>]
      else t\<lparr>Status := ''Auditing'', Progress := 40\<rparr> #
        (if \<not> engine_dial out then [t\<lparr>Status := ''Error: engine connect'', Progress := 40\<rparr>]
         else if \<not> inference_dial out then [t\<lparr>Status := ''Error: inference connect'', Progress := 40\<rparr>]
         else [t\<lparr>AnnotatedPath := SourcePath t @ ''-annotated.docx'',
                 ReportPath := SourcePath t @ ''-report.json'',
                 Status := ''Completed'', Progress := 100\<rparr>]))"
  using assms
  by (simp add: worker_defs update_present new_trace_def task_history_def)

lemma simulate_task_history:
  assumes "store w tid = Some t"
  shows "task_history tid w (simulate_task tid w) =
     [t, t\<lparr>Status := ''Parsing'', Progress := 10\<rparr>,
      t\<lparr>Status := ''Auditing'', Progress := 40\<rparr>,
      t\<lparr>Status := ''Auditing'', Progress := 50\<rparr>,
      t\<lparr>Status := ''Auditing'', Progress := 60\<rparr>,
      t\<lparr>Status := ''Auditing'', Progress := 70\<rparr>,
      t\<lparr>Status := ''Auditing'', Progress := 80\<rparr>,
      t\<lparr>Status := ''Auditing'', Progress := 90\<rparr>,
      t\<lparr>AnnotatedPath := temp_docs (tid @ ''-annotated.docx''),
        ReportPath := temp_docs (tid @ ''-report.json''),
        Status := ''Completed'', Progress := 100\<rparr>]"
  using assms
  by (simp add: simulate_task_def Let_def call_def update_present new_trace_def task_history_def
       )

lemma uploaded_one:
  "store (uploaded [tid]) tid = Some (pending_task tid (temp_docs (tid @ ''.docx'')))"
  by (simp add: uploaded_def AddTask_def pending_task_def)

lemma calls_uploaded: "calls (uploaded tids) = []"
  by (simp add: uploaded_def)

lemma new_calls_uploaded: "new_calls (uploaded tids) w = calls w"
  by (simp add: new_calls_def uploaded_def)

text \<open>
  An iteration of the worker touches no record but the one of its own id, and removes
  none: the ids of the store stay what they were.
\<close>

lemma process_task_other:
  "tid' \<noteq> tid \<Longrightarrow> store (process_task out tid w) tid' = store w tid'"
  by (cases "store w tid") (simp_all add: worker_defs update_present)

lemma process_task_has_record:
  "store w tid' \<noteq> None \<Longrightarrow> store (process_task out tid w) tid' \<noteq> None"
proof (cases "tid' = tid")
  case True
  assume "store w tid' \<noteq> None"
  with True obtain t where "store w tid = Some t"
    by auto
  with True show ?thesis
    by (simp add: process_task_store)
next
  case False
  assume "store w tid' \<noteq> None"
  with False show ?thesis
    by (simp add: process_task_other)
qed

text \<open>
  Over a whole run: if every task received has a record and every connection is made,
  each task's \<open>AnalyzeSemantics\<close> goes out on the network, whatever the calls answer.
\<close>

lemma semantic_calls_all:
  "\<forall>(tid, out) \<in> set tasks. store w tid \<noteq> None \<and> parser_dial out \<and> parse_ok out \<and>
       engine_dial out \<and> inference_dial out
   \<Longrightarrow> semantic_calls tasks w = replicate (length tasks) True"
proof (induction tasks arbitrary: w)
  case Nil
  then show ?case by simp
next
  case (Cons job tasks)
  obtain tid out where job: "job = (tid, out)"
    by (cases job)
  from Cons.prems job obtain t where t: "store w tid = Some t"
    and d: "parser_dial out" "parse_ok out" "engine_dial out" "inference_dial out"
    by auto
  have rest: "\<forall>(tid', out') \<in> set tasks. store (process_task out tid w) tid' \<noteq> None \<and>
      parser_dial out' \<and> parse_ok out' \<and> engine_dial out' \<and> inference_dial out'"
  proof (intro ballI, clarify)
    fix tid' out'
    assume "(tid', out') \<in> set tasks"
    with Cons.prems have "store w tid' \<noteq> None" and "parser_dial out'" and "parse_ok out'"
      and "engine_dial out'" and "inference_dial out'"
      by auto
    then show "store (process_task out tid w) tid' \<noteq> None \<and>
      parser_dial out' \<and> parse_ok out' \<and> engine_dial out' \<and> inference_dial out'"
      using process_task_has_record by blast
  qed
  from t d have "AnalyzeSemantics \<in> set (new_calls w (process_task out tid w))"
    by (simp add: process_task_calls)
  with Cons.IH [OF rest] job show ?case
    by simp
qed

section \<open>The task store\<close>

text \<open>
  C7, as the code has it: \<open>AddTask\<close> has no error result. Adding a task whose id is
  already in the store succeeds and replaces the record stored under that id.
\<close>

theorem AddTask_replaces_existing:
  "GetTask s (ID t) = Some old \<Longrightarrow> GetTask (AddTask t s) (ID t) = Some t"
  by (simp add: GetTask_def AddTask_def)

theorem AddTask_replaces_existing_witness:
  "GetTask (AddTask \<lparr>ID = ''t1'', Status = ''Pending'', Progress = 0, SourcePath = ''a.docx'',
                      AnnotatedPath = [], ReportPath = []\<rparr> NewStore) ''t1''
     = Some \<lparr>ID = ''t1'', Status = ''Pending'', Progress = 0, SourcePath = ''a.docx'',
              AnnotatedPath = [], ReportPath = []\<rparr>
   \<and> GetTask (AddTask \<lparr>ID = ''t1'', Status = ''Running'', Progress = 50, SourcePath = ''b.docx'',
                        AnnotatedPath = [], ReportPath = []\<rparr>
         (AddTask \<lparr>ID = ''t1'', Status = ''Pending'', Progress = 0, SourcePath = ''a.docx'',
                    AnnotatedPath = [], ReportPath = []\<rparr> NewStore)) ''t1''
     = Some \<lparr>ID = ''t1'', Status = ''Running'', Progress = 50, SourcePath = ''b.docx'',
              AnnotatedPath = [], ReportPath = []\<rparr>"
proof -
  let ?old = "\<lparr>ID = ''t1'', Status = ''Pending'', Progress = 0, SourcePath = ''a.docx'',
                AnnotatedPath = [], ReportPath = []\<rparr>"
  let ?new = "\<lparr>ID = ''t1'', Status = ''Running'', Progress = 50, SourcePath = ''b.docx'',
                AnnotatedPath = [], ReportPath = []\<rparr>"
  have h: "GetTask (AddTask ?old NewStore) (ID ?new) = Some ?old"
    by (simp add: GetTask_def AddTask_def)
  from AddTask_replaces_existing [OF h] h show ?thesis
    by simp
qed

text \<open>
  C7 as stated fails: the store of the repository's own test holds task \<open>t1\<close>; a second
  \<open>AddTask\<close> with the same id goes through, and the record read back afterwards is the
  new one, not the one that was there.
\<close>

theorem AddTask_duplicate_counterexample:
  "GetTask (AddTask \<lparr>ID = ''t1'', Status = ''Running'', Progress = 50, SourcePath = ''b.docx'',
                      AnnotatedPath = [], ReportPath = []\<rparr>
         (AddTask \<lparr>ID = ''t1'', Status = ''Pending'', Progress = 0, SourcePath = [],
                    AnnotatedPath = [], ReportPath = []\<rparr> NewStore)) ''t1''
     \<noteq> GetTask (AddTask \<lparr>ID = ''t1'', Status = ''Pending'', Progress = 0, SourcePath = [],
                          AnnotatedPath = [], ReportPath = []\<rparr> NewStore) ''t1''"
  by (simp add: GetTask_def AddTask_def NewStore_def)

section \<open>Ids without a record\<close>

text \<open>
  C10: when the worker receives an id the store has no record for, the iteration changes
  nothing (no record, no mutation logged, no outside call) and the loop goes on with the
  next id. This holds for the gRPC worker and for the simulated one.
\<close>

theorem worker_skips_unknown_id:
  "GetTask (store w) tid = None \<Longrightarrow>
     process_task out tid w = w \<and> Worker ((tid, out) # rest) w = Worker rest w \<and>
     simulate_task tid w = w \<and> SimWorker (tid # ids) w = SimWorker ids w"
  by (simp add: process_task_def simulate_task_def GetTask_def)

theorem worker_skips_unknown_id_witness:
  "GetTask (store (uploaded [''t1''])) ''ghost'' = None \<and>
   process_task healthy ''ghost'' (uploaded [''t1'']) = uploaded [''t1''] \<and>
   Worker [(''ghost'', healthy)] (uploaded [''t1'']) = uploaded [''t1''] \<and>
   simulate_task ''ghost'' (uploaded [''t1'']) = uploaded [''t1''] \<and>
   SimWorker [''ghost''] (uploaded [''t1'']) = uploaded [''t1'']"
proof -
  have h: "GetTask (store (uploaded [''t1''])) ''ghost'' = None"
    by (simp add: GetTask_def NewStore_def AddTask_def pending_task_def uploaded_def)
  from worker_skips_unknown_id [OF h, of healthy "[]" "[]"] h show ?thesis
    by simp
qed

section \<open>Aggregation of the two issue lists\<close>







section \<open>Failures of the inference stage\<close>




section \<open>Failures of the parse stage\<close>

text \<open>
  C5: when the parser cannot be connected to, or \<open>ParseDocument\<close> fails or times out,
  the task ends with one of the two parse-error statuses, at progress 5 (so at most 5),
  with \<open>AnnotatedPath\<close> and \<open>ReportPath\<close> still empty, as the intake left them. The
  iteration stops there: the parser was dialled once and called at most once, nothing
  after the parse stage was called, the error status is the last mutation of the task,
  and the loop goes on with the next id without putting this one back.
\<close>

theorem parse_failure_is_terminal:
  assumes "store w tid = Some t"
    and "AnnotatedPath t = []" and "ReportPath t = []"
    and "\<not> (parser_dial out \<and> parse_ok out)"
  shows "(\<exists>t'. store (process_task out tid w) tid = Some t' \<and>
                parse_error_status (Status t') \<and> Progress t' \<le> 5 \<and>
                AnnotatedPath t' = [] \<and> ReportPath t' = []) \<and>
         new_calls w (process_task out tid w)
           = (if parser_dial out then [DialParser, ParseDocument (SourcePath t)]
              else [DialParser]) \<and>
         map Status (task_history tid w (process_task out tid w))
           = [Status t, ''Parsing'',
              if parser_dial out then ''Error: parse'' else ''Error: parser connect''] \<and>
         Worker ((tid, out) # rest) w = Worker rest (process_task out tid w)"
  using assms
  by (auto simp add: process_task_store process_task_calls process_task_history
      parse_error_status_def)

theorem parse_failure_is_terminal_witness:
  "\<not> (parser_dial scenario_C \<and> parse_ok scenario_C) \<and>
   store (process_task scenario_C ''t1'' (uploaded [''t1''])) ''t1''
     = Some \<lparr>ID = ''t1'', Status = ''Error: parser connect'', Progress = 5,
              SourcePath = ''../temp_docs/t1.docx'', AnnotatedPath = [], ReportPath = []\<rparr> \<and>
   calls (process_task scenario_C ''t1'' (uploaded [''t1''])) = [DialParser] \<and>
   \<not> (parser_dial (healthy\<lparr>parse_ok := False\<rparr>) \<and> parse_ok (healthy\<lparr>parse_ok := False\<rparr>)) \<and>
   store (process_task (healthy\<lparr>parse_ok := False\<rparr>) ''t1'' (uploaded [''t1''])) ''t1''
     = Some \<lparr>ID = ''t1'', Status = ''Error: parse'', Progress = 5,
              SourcePath = ''../temp_docs/t1.docx'', AnnotatedPath = [], ReportPath = []\<rparr> \<and>
   calls (process_task (healthy\<lparr>parse_ok := False\<rparr>) ''t1'' (uploaded [''t1'']))
     = [DialParser, ParseDocument ''../temp_docs/t1.docx'']"
proof -
  let ?t = "pending_task ''t1'' (temp_docs (''t1'' @ ''.docx''))"
  have p: "AnnotatedPath ?t = []" "ReportPath ?t = []"
    by (simp_all add: pending_task_def)
  have c: "\<not> (parser_dial scenario_C \<and> parse_ok scenario_C)"
    by (simp add: scenario_C_def healthy_def)
  have e: "\<not> (parser_dial (healthy\<lparr>parse_ok := False\<rparr>) \<and> parse_ok (healthy\<lparr>parse_ok := False\<rparr>))"
    by simp
  from parse_failure_is_terminal [OF uploaded_one p c, of "[]"]
    parse_failure_is_terminal [OF uploaded_one p e, of "[]"] c e
  show ?thesis
    by (simp add: process_task_store [OF uploaded_one] new_calls_uploaded scenario_C_def
        healthy_def pending_task_def temp_docs_def)
qed

section \<open>Progress\<close>

text \<open>
  C6: while a task is processed, its progress never decreases from one record to the
  next, up to and including the terminal record. The worker starts by storing 5 (the
  simulated one 10), so this is for a task that enters processing at progress 5 or less;
  the intake creates every task at progress 0 and nothing else adds one.
\<close>

theorem progress_never_decreases:
  assumes "store w tid = Some t" and "Progress t \<le> 5"
  shows "sorted (map Progress (task_history tid w (process_task out tid w))) \<and>
         sorted (map Progress (task_history tid w (simulate_task tid w)))"
  using assms
  by (simp add: process_task_history simulate_task_history)

theorem progress_never_decreases_witness:
  "map_option Progress (store (uploaded [''t1'']) ''t1'') = Some 0 \<and>
   map Progress (task_history ''t1'' (uploaded [''t1''])
       (process_task healthy ''t1'' (uploaded [''t1'']))) = [0, 5, 40, 100] \<and>
   sorted (map Progress (task_history ''t1'' (uploaded [''t1''])
       (process_task healthy ''t1'' (uploaded [''t1''])))) \<and>
   map Progress (task_history ''t1'' (uploaded [''t1''])
       (simulate_task ''t1'' (uploaded [''t1'']))) = [0, 10, 40, 50, 60, 70, 80, 90, 100] \<and>
   sorted (map Progress (task_history ''t1'' (uploaded [''t1''])
       (simulate_task ''t1'' (uploaded [''t1'']))))"
proof -
  have h: "Progress (pending_task ''t1'' (temp_docs (''t1'' @ ''.docx''))) \<le> 5"
    by (simp add: pending_task_def)
  from progress_never_decreases [OF uploaded_one h, of healthy] show ?thesis
    by (simp add: uploaded_one process_task_history [OF uploaded_one]
        simulate_task_history [OF uploaded_one] healthy_def pending_task_def)
qed

section \<open>The artefact paths\<close>

text \<open>
  C8, as the code has it: while a task is processed, a mutation that changes
  \<open>AnnotatedPath\<close> or \<open>ReportPath\<close> is one that also sets the status to Completed and the
  progress to 100 and sets both paths; at most one mutation changes each path. When the
  task completes, \<open>AnnotatedPath\<close> is the source path followed by \<open>-annotated.docx\<close>
  whether or not \<open>copyFile\<close> produced that file: its result is discarded.
\<close>

theorem paths_set_once_on_completion:
  assumes "store w tid = Some t"
  shows "(\<forall>(a, b) \<in> set (steps (task_history tid w (process_task out tid w))).
            AnnotatedPath b \<noteq> AnnotatedPath a \<or> ReportPath b \<noteq> ReportPath a \<longrightarrow>
              Status b = ''Completed'' \<and> Progress b = 100 \<and>
              AnnotatedPath b = SourcePath t @ ''-annotated.docx'' \<and>
              ReportPath b = SourcePath t @ ''-report.json'') \<and>
         length (filter (\<lambda>(a, b). AnnotatedPath b \<noteq> AnnotatedPath a)
                   (steps (task_history tid w (process_task out tid w)))) \<le> 1 \<and>
         length (filter (\<lambda>(a, b). ReportPath b \<noteq> ReportPath a)
                   (steps (task_history tid w (process_task out tid w)))) \<le> 1 \<and>
         (parser_dial out \<and> parse_ok out \<and> engine_dial out \<and> inference_dial out \<longrightarrow>
            map_option AnnotatedPath (store (process_task out tid w) tid)
              = Some (SourcePath t @ ''-annotated.docx'') \<and>
            map_option ReportPath (store (process_task out tid w) tid)
              = Some (SourcePath t @ ''-report.json'') \<and>
            map_option Status (store (process_task out tid w) tid) = Some ''Completed'')"
  using assms
  by (simp add: process_task_history process_task_store steps_def)

theorem paths_set_once_on_completion_witness:
  "\<not> copy_ok (healthy\<lparr>copy_ok := False\<rparr>) \<and>
   map (\<lambda>t. (Status t, AnnotatedPath t, ReportPath t))
     (task_history ''t1'' (uploaded [''t1''])
        (process_task (healthy\<lparr>copy_ok := False\<rparr>) ''t1'' (uploaded [''t1''])))
     = [(''Pending'', [], []), (''Parsing'', [], []), (''Auditing'', [], []),
        (''Completed'', ''../temp_docs/t1.docx-annotated.docx'',
         ''../temp_docs/t1.docx-report.json'')] \<and>
   map_option AnnotatedPath
     (store (process_task (healthy\<lparr>copy_ok := False\<rparr>) ''t1'' (uploaded [''t1''])) ''t1'')
     = Some ''../temp_docs/t1.docx-annotated.docx''"
  using paths_set_once_on_completion [OF uploaded_one [of "''t1''"],
      where out = "healthy\<lparr>copy_ok := False\<rparr>"]
  by (simp add: process_task_history [OF uploaded_one] healthy_def pending_task_def
      temp_docs_def)

text \<open>
  C8 as stated fails when the copy of the annotated file fails: the task completes with
  \<open>AnnotatedPath\<close> set all the same.
\<close>

theorem annotated_path_counterexample:
  "\<not> copy_ok (healthy\<lparr>copy_ok := False\<rparr>) \<and>
   map_option AnnotatedPath
     (store (process_task (healthy\<lparr>copy_ok := False\<rparr>) ''t1'' (uploaded [''t1''])) ''t1'')
     = Some ''../temp_docs/t1.docx-annotated.docx''"
  by (simp add: process_task_store [OF uploaded_one] healthy_def pending_task_def
      temp_docs_def)

section \<open>The inference service and the circuit breaker\<close>

text \<open>
  C4, as the code has it: no circuit breaker stands between the worker and the inference
  service. Whatever was called before and however it ended, a task that got through the
  parse stage and the engine connection dials the inference service, and once connected
  calls \<open>AnalyzeSemantics\<close> over the network; a failed call gives the empty response for
  that task alone.
\<close>

theorem inference_always_called:
  assumes "store w tid = Some t"
    and "parser_dial out" and "parse_ok out" and "engine_dial out"
  shows "filter inference_call (new_calls w (process_task out tid w))
           = (if inference_dial out then [DialInference, AnalyzeSemantics] else [DialInference]) \<and>
         (analyze_semantics out = None \<longrightarrow> semantic_branch out = empty_response)"
  using assms
  by (simp add: process_task_calls semantic_branch_def)

theorem inference_always_called_witness:
  "analyze_semantics inference_failing = None \<and>
   semantic_branch inference_failing = empty_response \<and>
   filter inference_call (calls (process_task inference_failing ''t1'' (uploaded [''t1''])))
     = [DialInference, AnalyzeSemantics]"
  using inference_always_called [OF uploaded_one [of "''t1''"], where out = inference_failing]
  by (simp add: new_calls_uploaded inference_failing_def healthy_def)

text \<open>
  C4 as stated fails: six tasks are processed one after the other, well within any
  cool-down window, and the inference service fails each call. The breaker of the spec,
  set to open after five consecutive failures, lets the first five calls out and
  short-circuits the sixth. The worker sends all six over the network.
\<close>

theorem circuit_breaker_counterexample:
  "spec_breaker_passes 5 (Closed 0)
     [(False, False), (False, False), (False, False), (False, False), (False, False),
      (False, False)]
     = [True, True, True, True, True, False] \<and>
   semantic_calls
     [(''t1'', inference_failing), (''t2'', inference_failing), (''t3'', inference_failing),
      (''t4'', inference_failing), (''t5'', inference_failing), (''t6'', inference_failing)]
     (uploaded [''t1'', ''t2'', ''t3'', ''t4'', ''t5'', ''t6''])
     = [True, True, True, True, True, True]"
proof -
  let ?tasks = "[(''t1'', inference_failing), (''t2'', inference_failing),
      (''t3'', inference_failing), (''t4'', inference_failing), (''t5'', inference_failing),
      (''t6'', inference_failing)]"
  have "\<forall>(tid, out) \<in> set ?tasks.
      store (uploaded [''t1'', ''t2'', ''t3'', ''t4'', ''t5'', ''t6'']) tid \<noteq> None \<and>
      parser_dial out \<and> parse_ok out \<and> engine_dial out \<and> inference_dial out"
    by (simp add: uploaded_def AddTask_def pending_task_def inference_failing_def healthy_def)
  then have "semantic_calls ?tasks (uploaded [''t1'', ''t2'', ''t3'', ''t4'', ''t5'', ''t6''])
      = replicate (length ?tasks) True"
    by (rule semantic_calls_all)
  moreover have "replicate (length ?tasks) True = [True, True, True, True, True, True]"
    by (simp add: numeral_eq_Suc)
  moreover have "spec_breaker_passes 5 (Closed 0)
     [(False, False), (False, False), (False, False), (False, False), (False, False),
      (False, False)] = [True, True, True, True, True, False]"
    by (simp add: spec_probe_def)
  ultimately show ?thesis
    by simp
qed

section \<open>Intake\<close>

text \<open>
  C9: an upload whose file was received and saved never waits for the worker. The
  handler answers 202 with the task id in both cases: when the queue has room the
  channel takes the id at once (into the buffer, or straight to the worker if it is
  waiting) and the task stays Pending; when the queue is full the queue is left alone,
  the task is marked Queued and the id is handed to a background sender. This is for a
  buffered channel (capacity at least 1, as \<open>main\<close> and the test create it), on which a
  receiver waits only while the buffer is empty.
\<close>

theorem upload_never_blocks:
  assumes "form_file req" and "file_open req" and "dst_create req" and "dst_copy req"
    and "0 < capacity g" and "receiver_waiting g \<longrightarrow> queue g = []"
  shows "snd (UploadHandler req g) = JSON 202 [(''task_id'', new_uuid req)] \<and>
         (length (queue g) < capacity g \<longrightarrow>
            (if receiver_waiting g
             then handed_over (fst (UploadHandler req g)) = handed_over g @ [new_uuid req] \<and>
                  queue (fst (UploadHandler req g)) = queue g
             else queue (fst (UploadHandler req g)) = queue g @ [new_uuid req] \<and>
                  handed_over (fst (UploadHandler req g)) = handed_over g) \<and>
            retrying (fst (UploadHandler req g)) = retrying g \<and>
            map_option Status (task_store (fst (UploadHandler req g)) (new_uuid req))
              = Some ''Pending'') \<and>
         (\<not> length (queue g) < capacity g \<longrightarrow>
            queue (fst (UploadHandler req g)) = queue g \<and>
            handed_over (fst (UploadHandler req g)) = handed_over g \<and>
            retrying (fst (UploadHandler req g)) = retrying g @ [new_uuid req] \<and>
            map_option Status (task_store (fst (UploadHandler req g)) (new_uuid req))
              = Some ''Queued'')"
proof -
  from assms(5,6) have full: "\<not> length (queue g) < capacity g \<Longrightarrow> \<not> receiver_waiting g"
    by auto
  from assms(1-4) full show ?thesis
    by (auto simp add: UploadHandler_def enqueue_def Let_def AddTask_def UpdateTask_def
        pending_task_def)
qed

theorem upload_never_blocks_witness:
  "UploadHandler
     \<lparr>form_file = True, file_open = True, new_uuid = ''t2'', dst_create = True, dst_copy = True\<rparr>
     \<lparr>task_store = NewStore, queue = [], capacity = 1, receiver_waiting = False,
      handed_over = [], retrying = []\<rparr>
   = (\<lparr>task_store = AddTask (pending_task ''t2'' ''../temp_docs/t2.docx'') NewStore,
       queue = [''t2''], capacity = 1, receiver_waiting = False, handed_over = [],
       retrying = []\<rparr>,
      JSON 202 [(''task_id'', ''t2'')]) \<and>
   UploadHandler
     \<lparr>form_file = True, file_open = True, new_uuid = ''t2'', dst_create = True, dst_copy = True\<rparr>
     \<lparr>task_store = NewStore, queue = [], capacity = 1, receiver_waiting = True,
      handed_over = [], retrying = []\<rparr>
   = (\<lparr>task_store = AddTask (pending_task ''t2'' ''../temp_docs/t2.docx'') NewStore,
       queue = [], capacity = 1, receiver_waiting = False, handed_over = [''t2''],
       retrying = []\<rparr>,
      JSON 202 [(''task_id'', ''t2'')]) \<and>
   UploadHandler
     \<lparr>form_file = True, file_open = True, new_uuid = ''t2'', dst_create = True, dst_copy = True\<rparr>
     \<lparr>task_store = NewStore, queue = [''t1''], capacity = 1, receiver_waiting = False,
      handed_over = [], retrying = []\<rparr>
   = (\<lparr>task_store = AddTask ((pending_task ''t2'' ''../temp_docs/t2.docx'')\<lparr>Status := ''Queued''\<rparr>)
                      NewStore,
       queue = [''t1''], capacity = 1, receiver_waiting = False, handed_over = [],
       retrying = [''t2'']\<rparr>,
      JSON 202 [(''task_id'', ''t2'')])"
proof -
  let ?req = "\<lparr>form_file = True, file_open = True, new_uuid = ''t2'', dst_create = True,
               dst_copy = True\<rparr>"
  let ?room = "\<lparr>task_store = NewStore, queue = [], capacity = 1, receiver_waiting = False,
                handed_over = [], retrying = []\<rparr>"
  let ?idle = "\<lparr>task_store = NewStore, queue = [], capacity = 1, receiver_waiting = True,
                handed_over = [], retrying = []\<rparr>"
  let ?full = "\<lparr>task_store = NewStore, queue = [''t1''], capacity = 1,
                receiver_waiting = False, handed_over = [], retrying = []\<rparr>"
  have h: "form_file ?req" "file_open ?req" "dst_create ?req" "dst_copy ?req"
    by simp_all
  have room: "0 < capacity ?room" "receiver_waiting ?room \<longrightarrow> queue ?room = []"
    by simp_all
  have idle: "0 < capacity ?idle" "receiver_waiting ?idle \<longrightarrow> queue ?idle = []"
    by simp_all
  have full: "0 < capacity ?full" "receiver_waiting ?full \<longrightarrow> queue ?full = []"
    by simp_all
  from upload_never_blocks [OF h room] upload_never_blocks [OF h idle]
    upload_never_blocks [OF h full]
  show ?thesis
    by (simp add: UploadHandler_def enqueue_def Let_def AddTask_def UpdateTask_def
        pending_task_def temp_docs_def)
qed

end
